theory Spec2Isabelle
  imports Main "HOL-Library.Word"
begin

section \<open>The audio relay adapter \<open>GeminiHandler\<close> of \<open>live_api_ui.py\<close>\<close>

text \<open>
  The adapter is one Python class. Its objects hold references to two
  \<open>asyncio.Queue\<close>s and two \<open>asyncio.Event\<close>s, which several coroutines mutate
  on one cooperative event loop. The embedding keeps these mutable objects in an
  explicit store (\<open>world\<close>), addressed by references, so that aliasing between
  two handlers is visible. A handler is the record of its attribute values.
\<close>

subsection \<open>Data\<close>

type_synonym byte = "8 word"
type_synonym ref = nat

text \<open>
  A \<open>numpy.ndarray\<close>: its shape and its raw data in C order. The adapter never
  looks at single samples, only at \<open>squeeze()\<close> and \<open>tobytes()\<close>.
\<close>

record ndarray =
  shape :: "nat list"
  buffer :: "byte list"

text \<open>The objects the adapter puts on its queues: text messages and sample arrays.\<close>

datatype item = Str string | Array ndarray

text \<open>\<open>genai.Client(api_key=..., http_options={"api_version": ...})\<close>.\<close>

datatype genai_client = Client string string

text \<open>What \<open>connect\<close> asked the remote service for when it opened a session.\<close>

record request =
  api_key :: string
  api_version :: string
  model :: string
  response_modalities :: "string list"
  mime_type :: string

text \<open>
  The store. \<open>queues\<close> and \<open>events\<close> hold the \<open>asyncio.Queue\<close> and
  \<open>asyncio.Event\<close> objects by reference (a queue is the list of its items, oldest
  first; an event is its flag). \<open>tasks\<close> counts the coroutines handed to
  \<open>asyncio.create_task\<close>, \<open>sessions\<close> logs the remote sessions opened.
\<close>

record world =
  queues :: "item list list"
  events :: "bool list"
  tasks :: nat
  sessions :: "request list"

text \<open>
  The attributes of a \<open>GeminiHandler\<close>. The first four, \<open>args_set\<close> and
  \<open>latest_args\<close> belong to the base class \<open>AsyncStreamHandler\<close> of the
  \<open>gradio_webrtc\<close> library; the source reads them in \<open>copy\<close>, \<open>emit\<close> and
  \<open>generator\<close>.
\<close>

record handler =
  expected_layout :: string
  output_sample_rate :: int
  output_frame_size :: int
  input_sample_rate :: int
  args_set :: ref
  latest_args :: "string list"
  client :: "genai_client option"
  input_queue :: ref
  output_queue :: ref
  quit :: ref

subsection \<open>\<open>asyncio.Queue\<close> and \<open>asyncio.Event\<close>\<close>

text \<open>\<open>asyncio.Queue()\<close>: a new, empty, unbounded queue.\<close>

definition Queue :: "world \<Rightarrow> ref \<times> world" where
  "Queue w = (length (queues w), w\<lparr>queues := queues w @ [[]]\<rparr>)"

text \<open>\<open>asyncio.Event()\<close>: a new event, not set.\<close>

definition Event :: "world \<Rightarrow> ref \<times> world" where
  "Event w = (length (events w), w\<lparr>events := events w @ [False]\<rparr>)"

text \<open>The items of queue \<open>q\<close>; a reference to no queue has none.\<close>

definition items :: "ref \<Rightarrow> world \<Rightarrow> item list" where
  "items q w = (if q < length (queues w) then queues w ! q else [])"

text \<open>\<open>q.put_nowait(x)\<close>: the queue is unbounded, so this never raises \<open>QueueFull\<close>.\<close>

definition put_nowait :: "ref \<Rightarrow> item \<Rightarrow> world \<Rightarrow> world" where
  "put_nowait q x w = w\<lparr>queues := (queues w)[q := items q w @ [x]]\<rparr>"

text \<open>
  \<open>await q.get()\<close>: when the queue holds an item, the oldest one is removed and
  returned without suspending; on an empty queue the caller is suspended (\<open>None\<close>).
\<close>

definition get :: "ref \<Rightarrow> world \<Rightarrow> (item \<times> world) option" where
  "get q w =
     (case items q w of
        [] \<Rightarrow> None
      | x # rest \<Rightarrow> Some (x, w\<lparr>queues := (queues w)[q := rest]\<rparr>))"

definition is_set :: "ref \<Rightarrow> world \<Rightarrow> bool" where
  "is_set e w = (e < length (events w) \<and> events w ! e)"

definition event_set :: "ref \<Rightarrow> world \<Rightarrow> world" where
  "event_set e w = w\<lparr>events := (events w)[e := True]\<rparr>"

subsection \<open>\<open>numpy\<close> and \<open>base64\<close>\<close>

text \<open>\<open>array.squeeze()\<close> drops the axes of length one; the data is the same.\<close>

definition squeeze :: "ndarray \<Rightarrow> ndarray" where
  "squeeze a = a\<lparr>shape := filter (\<lambda>d. d \<noteq> 1) (shape a)\<rparr>"

text \<open>\<open>array.tobytes()\<close>: the raw data in C order.\<close>

definition tobytes :: "ndarray \<Rightarrow> byte list" where
  "tobytes a = buffer a"

text \<open>\<open>array.size\<close>: the number of samples, the product of the shape.\<close>

definition size_of :: "ndarray \<Rightarrow> nat" where
  "size_of a = prod_list (shape a)"

definition b64_alphabet :: string where
  "b64_alphabet = ''ABCDEFGHIJKLMNOPQRSTUVWXYZabcdefghijklmnopqrstuvwxyz0123456789+/''"

definition b64_char :: "nat \<Rightarrow> char" where
  "b64_char n = b64_alphabet ! (n mod 64)"

text \<open>
  \<open>base64.b64encode(bs).decode("UTF-8")\<close>: the standard alphabet with padding
  (RFC 4648). The encoding is ASCII, so decoding it as UTF-8 gives the same
  characters and cannot fail.
\<close>

fun b64encode :: "byte list \<Rightarrow> string" where
  "b64encode [] = []"
| "b64encode [a] =
     (let n = unat a * 65536
      in [b64_char (n div 262144), b64_char (n div 4096), CHR ''='', CHR ''=''])"
| "b64encode [a, b] =
     (let n = unat a * 65536 + unat b * 256
      in [b64_char (n div 262144), b64_char (n div 4096), b64_char (n div 64), CHR ''=''])"
| "b64encode (a # b # c # rest) =
     (let n = unat a * 65536 + unat b * 256 + unat c
      in [b64_char (n div 262144), b64_char (n div 4096), b64_char (n div 64), b64_char n]
         @ b64encode rest)"

subsection \<open>Construction\<close>

text \<open>
  \<open>__init__\<close>: the base class stores the four stream parameters (the input rate is
  the constant 16000) and creates its \<open>args_set\<close> event with no arguments received
  yet; then \<open>client\<close> is \<open>None\<close> and the two queues and the quit event are created,
  in this order.
\<close>

definition GeminiHandler_init :: "string \<Rightarrow> int \<Rightarrow> int \<Rightarrow> world \<Rightarrow> handler \<times> world" where
  "GeminiHandler_init layout rate frame_size w =
     (let (a, w1) = Event w;
          (i, w2) = Queue w1;
          (out, w3) = Queue w2;
          (e, w4) = Event w3
      in (\<lparr>expected_layout = layout, output_sample_rate = rate,
           output_frame_size = frame_size, input_sample_rate = 16000,
           args_set = a, latest_args = [], client = None,
           input_queue = i, output_queue = out, quit = e\<rparr>, w4))"

text \<open>\<open>GeminiHandler()\<close> with the default arguments of \<open>__init__\<close>.\<close>

definition GeminiHandler_default :: "world \<Rightarrow> handler \<times> world" where
  "GeminiHandler_default w = GeminiHandler_init ''mono'' 24000 480 w"

definition copy :: "handler \<Rightarrow> world \<Rightarrow> handler \<times> world" where
  "copy h w =
     GeminiHandler_init (expected_layout h) (output_sample_rate h) (output_frame_size h) w"

subsection \<open>\<open>receive\<close> and \<open>shutdown\<close>\<close>

text \<open>The message \<open>receive\<close> builds from a frame; the frame's rate is ignored.\<close>

definition audio_message :: "int \<times> ndarray \<Rightarrow> string" where
  "audio_message frame = (case frame of (_, array) \<Rightarrow> b64encode (tobytes (squeeze array)))"

definition receive :: "handler \<Rightarrow> int \<times> ndarray \<Rightarrow> world \<Rightarrow> world" where
  "receive h frame w = put_nowait (input_queue h) (Str (audio_message frame)) w"

definition shutdown :: "handler \<Rightarrow> world \<Rightarrow> world" where
  "shutdown h w = event_set (quit h) w"

text \<open>
  The references of a handler point into the store and to four different objects, as
  they do for every handler that \<open>__init__\<close> built.
\<close>

definition wf_handler :: "handler \<Rightarrow> world \<Rightarrow> bool" where
  "wf_handler h w =
     (input_queue h < length (queues w) \<and> output_queue h < length (queues w) \<and>
      input_queue h \<noteq> output_queue h \<and>
      quit h < length (events w) \<and> args_set h < length (events w) \<and>
      quit h \<noteq> args_set h)"

text \<open>The empty store, before any object is created.\<close>

definition world0 :: world where
  "world0 = \<lparr>queues = [], events = [], tasks = 0, sessions = []\<rparr>"

subsection \<open>The coroutine \<open>stream\<close>\<close>

text \<open>
  \<open>stream\<close> is an asynchronous generator. Between two resumptions by its consumer
  (the remote session) it rests at the head of its loop, inside
  \<open>await self.input_queue.get()\<close> on an empty queue, or at its end.
\<close>

datatype stream_pc = LoopHead | AwaitInput | Exhausted

datatype stream_result = Yield item | Blocked | StopAsyncIteration

text \<open>\<open>audio = await self.input_queue.get(); yield audio\<close>\<close>

definition stream_get :: "handler \<Rightarrow> world \<Rightarrow> stream_result \<times> stream_pc \<times> world" where
  "stream_get h w =
     (case get (input_queue h) w of
        None \<Rightarrow> (Blocked, AwaitInput, w)
      | Some (audio, w') \<Rightarrow> (Yield audio, LoopHead, w'))"

text \<open>One resumption of the generator, run until it yields, suspends or ends.\<close>

definition stream :: "handler \<Rightarrow> stream_pc \<Rightarrow> world \<Rightarrow> stream_result \<times> stream_pc \<times> world" where
  "stream h pc w =
     (case pc of
        LoopHead \<Rightarrow>
          if \<not> is_set (quit h) w then stream_get h w
          else (StopAsyncIteration, Exhausted, w)
      | AwaitInput \<Rightarrow> stream_get h w
      | Exhausted \<Rightarrow> (StopAsyncIteration, Exhausted, w))"

subsection \<open>The remote service, \<open>connect\<close> and \<open>generator\<close>\<close>

text \<open>
  Exceptions: the \<open>IndexError\<close> of \<open>self.latest_args[1]\<close>, and whatever the
  \<open>google.genai\<close> client or the transport raises, kept as an opaque value.
\<close>

datatype exn = IndexError | RemoteError string

text \<open>A response chunk of the session; \<open>data\<close> is \<open>Optional[bytes]\<close>.\<close>

record response =
  data :: "byte list option"

text \<open>
  What the remote service does during one call of \<open>connect\<close>: creating the client
  may raise, entering \<open>client.aio.live.connect\<close> may raise, and the response
  stream delivers \<open>responses\<close> and then ends or raises.
\<close>

record remote =
  client_error :: "exn option"
  connect_error :: "exn option"
  responses :: "response list"
  stream_error :: "exn option"

text \<open>Python's truth value of \<open>audio.data\<close>: \<open>None\<close> and \<open>b""\<close> are false.\<close>

definition truthy :: "byte list option \<Rightarrow> bool" where
  "truthy d = (case d of None \<Rightarrow> False | Some bs \<Rightarrow> bs \<noteq> [])"

text \<open>The body of the \<open>async for\<close> of \<open>connect\<close>: the chunks it yields, in order.\<close>

fun relay :: "response list \<Rightarrow> byte list list" where
  "relay [] = []"
| "relay (audio # rest) =
     (if truthy (data audio) then the (data audio) # relay rest else relay rest)"

text \<open>
  \<open>connect\<close>, run against one behaviour of the remote service: the chunks it
  yields and how it ends (\<open>None\<close>: the generator is exhausted; \<open>Some e\<close>: it
  raises \<open>e\<close>). There is no \<open>try\<close> in the source. The session is handed
  \<open>self.stream()\<close> as its input.
\<close>

definition connect :: "handler \<Rightarrow> string \<Rightarrow> remote \<Rightarrow> world \<Rightarrow> (byte list list \<times> exn option) \<times> world" where
  "connect h key r w =
     (case client_error r of
        Some e \<Rightarrow> (([], Some e), w)
      | None \<Rightarrow>
         (case connect_error r of
            Some e \<Rightarrow> (([], Some e), w)
          | None \<Rightarrow>
             ((relay (responses r), stream_error r),
              w\<lparr>sessions := sessions w @
                 [\<lparr>api_key = key, api_version = ''v1alpha'',
                   model = ''models/gemini-2.0-flash-exp'',
                   response_modalities = [''AUDIO''],
                   mime_type = ''audio/pcm''\<rparr>]\<rparr>)))"

text \<open>
  \<open>generator\<close>: every array that the library's
  \<open>async_aggregate_bytes_to_16bit\<close> (the parameter \<open>aggregate\<close>) makes of the
  chunks of \<open>connect\<close> is put on the output queue. The result is how the coroutine
  ends.
\<close>

definition generator :: "(byte list list \<Rightarrow> ndarray list) \<Rightarrow> handler \<Rightarrow> remote \<Rightarrow> world \<Rightarrow> exn option \<times> world" where
  "generator aggregate h r w =
     (case latest_args h of
        _ # key # _ \<Rightarrow>
          (case connect h key r w of
             ((chunks, e), w') \<Rightarrow>
               (e, fold (\<lambda>audio_response. put_nowait (output_queue h) (Array audio_response))
                     (aggregate chunks) w'))
      | _ \<Rightarrow> (Some IndexError, w))"

subsection \<open>The coroutine \<open>emit\<close>\<close>

text \<open>\<open>emit\<close> can be suspended in \<open>wait_for_args\<close> and in \<open>output_queue.get\<close>.\<close>

datatype emit_pc = AwaitArgs | AwaitOutput

datatype emit_result = Suspended emit_pc | Returned "int \<times> item"

text \<open>\<open>asyncio.create_task(self.generator())\<close>\<close>

definition create_task :: "world \<Rightarrow> world" where
  "create_task w = w\<lparr>tasks := Suc (tasks w)\<rparr>"

text \<open>\<open>array = await self.output_queue.get(); return (self.output_sample_rate, array)\<close>\<close>

definition emit_output :: "handler \<Rightarrow> world \<Rightarrow> emit_result \<times> world" where
  "emit_output h w =
     (case get (output_queue h) w of
        None \<Rightarrow> (Suspended AwaitOutput, w)
      | Some (array, w') \<Rightarrow> (Returned (output_sample_rate h, array), w'))"

text \<open>
  \<open>await self.wait_for_args()\<close> and what follows it. The library's
  \<open>wait_for_args\<close> returns once the \<open>args_set\<close> event is set.
\<close>

definition emit_args :: "handler \<Rightarrow> world \<Rightarrow> emit_result \<times> world" where
  "emit_args h w =
     (if is_set (args_set h) w then emit_output h (create_task w)
      else (Suspended AwaitArgs, w))"

text \<open>A call of \<open>emit\<close>, run until it returns or is suspended.\<close>

definition emit :: "handler \<Rightarrow> world \<Rightarrow> emit_result \<times> world" where
  "emit h w = (if \<not> is_set (args_set h) w then emit_args h w else emit_output h w)"

text \<open>The event loop resumes a suspended call of \<open>emit\<close>.\<close>

definition emit_resume :: "handler \<Rightarrow> emit_pc \<Rightarrow> world \<Rightarrow> emit_result \<times> world" where
  "emit_resume h pc w = (case pc of AwaitArgs \<Rightarrow> emit_args h w | AwaitOutput \<Rightarrow> emit_output h w)"

subsection \<open>The event loop\<close>

text \<open>
  One handler on a single cooperative event loop. What happens, in which order, is the
  choice of the environment: the hosting framework delivers frames, calls \<open>emit\<close>
  (one call at a time: a call made while another is suspended is not part of the
  schedules considered and is skipped), sets the arguments and shuts down; the loop resumes suspended
  coroutines and runs created tasks; the remote session pulls from \<open>stream\<close>.
\<close>

datatype event =
    Receive "int \<times> ndarray"
  | Shutdown
  | SetArgs "string list"
  | EmitCall
  | EmitResume
  | TaskRun remote
  | StreamNext

text \<open>
  \<open>emitted\<close>, \<open>yielded\<close> and \<open>finished\<close> log what \<open>emit\<close> returned, what
  \<open>stream\<close> yielded and how the generator tasks ended; \<open>checks\<close> logs the
  value of the quit flag each time the head of the loop of \<open>stream\<close> read it.
\<close>

record system =
  self :: handler
  store :: world
  emit_st :: "emit_pc option"
  emitted :: "(int \<times> item) list"
  stream_st :: stream_pc
  yielded :: "item list"
  checks :: "bool list"
  started :: nat
  finished :: "exn option list"

definition emit_done :: "emit_result \<times> world \<Rightarrow> system \<Rightarrow> system" where
  "emit_done rw s =
     (case rw of
        (Suspended pc, w) \<Rightarrow> s\<lparr>store := w, emit_st := Some pc\<rparr>
      | (Returned frame, w) \<Rightarrow> s\<lparr>store := w, emit_st := None, emitted := emitted s @ [frame]\<rparr>)"

definition stream_done :: "stream_result \<times> stream_pc \<times> world \<Rightarrow> system \<Rightarrow> system" where
  "stream_done rw s =
     (case rw of
        (Yield audio, pc, w) \<Rightarrow> s\<lparr>store := w, stream_st := pc, yielded := yielded s @ [audio]\<rparr>
      | (_, pc, w) \<Rightarrow> s\<lparr>store := w, stream_st := pc\<rparr>)"

fun exec :: "(byte list list \<Rightarrow> ndarray list) \<Rightarrow> event \<Rightarrow> system \<Rightarrow> system" where
  "exec agg (Receive frame) s = s\<lparr>store := receive (self s) frame (store s)\<rparr>"
| "exec agg Shutdown s = s\<lparr>store := shutdown (self s) (store s)\<rparr>"
| "exec agg (SetArgs args) s =
     s\<lparr>self := (self s)\<lparr>latest_args := args\<rparr>,
       store := event_set (args_set (self s)) (store s)\<rparr>"
| "exec agg EmitCall s =
     (case emit_st s of
        Some _ \<Rightarrow> s
      | None \<Rightarrow> emit_done (emit (self s) (store s)) s)"
| "exec agg EmitResume s =
     (case emit_st s of
        None \<Rightarrow> s
      | Some pc \<Rightarrow> emit_done (emit_resume (self s) pc (store s)) s)"
| "exec agg (TaskRun r) s =
     (if started s < tasks (store s) then
        (case generator agg (self s) r (store s) of
           (e, w) \<Rightarrow> s\<lparr>store := w, started := Suc (started s), finished := finished s @ [e]\<rparr>)
      else s)"
| "exec agg StreamNext s =
     stream_done (stream (self s) (stream_st s) (store s))
       (s\<lparr>checks := checks s @
            (if stream_st s = LoopHead then [is_set (quit (self s)) (store s)] else [])\<rparr>)"

definition run :: "(byte list list \<Rightarrow> ndarray list) \<Rightarrow> event list \<Rightarrow> system \<Rightarrow> system" where
  "run agg evs s = fold (exec agg) evs s"

text \<open>
  A handler just built, nothing running yet; tasks created before belong to others.
\<close>

definition boot :: "handler \<times> world \<Rightarrow> system" where
  "boot hw =
     (case hw of
        (h, w) \<Rightarrow>
          \<lparr>self = h, store = w, emit_st = None, emitted = [], stream_st = LoopHead,
           yielded = [], checks = [], started = tasks w, finished = []\<rparr>)"

subsection \<open>Notions used to state the properties\<close>

text \<open>The frames that a schedule submits to \<open>receive\<close>, in submission order.\<close>

fun received :: "event list \<Rightarrow> (int \<times> ndarray) list" where
  "received [] = []"
| "received (Receive frame # evs) = frame # received evs"
| "received (_ # evs) = received evs"


text \<open>
  An aggregator for the examples: every chunk becomes one array of 16-bit samples.
\<close>

definition sample_aggregate :: "byte list list \<Rightarrow> ndarray list" where
  "sample_aggregate chunks = map (\<lambda>c. \<lparr>shape = [1, length c div 2], buffer = c\<rparr>) chunks"

text \<open>A default handler in the empty store, and a frame of two samples.\<close>

definition handler0 :: handler where
  "handler0 = fst (GeminiHandler_default world0)"

definition store0 :: world where
  "store0 = snd (GeminiHandler_default world0)"

definition frame0 :: "int \<times> ndarray" where
  "frame0 = (16000, \<lparr>shape = [1, 2], buffer = [1, 2, 3, 4]\<rparr>)"

text \<open>A second frame, already without an axis of length one.\<close>

definition frame1 :: "int \<times> ndarray" where
  "frame1 = (16000, \<lparr>shape = [2], buffer = [5, 6, 7, 8]\<rparr>)"

text \<open>
  A session of the remote service that delivers four responses, two of them without
  audio data, and then fails.
\<close>

definition remote0 :: remote where
  "remote0 = \<lparr>client_error = None, connect_error = None,
     responses = [\<lparr>data = Some [1, 2, 3, 4]\<rparr>, \<lparr>data = None\<rparr>, \<lparr>data = Some []\<rparr>,
       \<lparr>data = Some [5, 6]\<rparr>],
     stream_error = Some (RemoteError ''connection closed'')\<rparr>"




section \<open>Properties\<close>

subsection \<open>Queues and events\<close>

lemma items_put_nowait:
  "items q' (put_nowait q x w) =
     (if q' = q \<and> q < length (queues w) then items q w @ [x] else items q' w)"
  by (simp add: items_def put_nowait_def)

lemma put_nowait_frame:
  "events (put_nowait q x w) = events w" "tasks (put_nowait q x w) = tasks w"
  "sessions (put_nowait q x w) = sessions w"
  "length (queues (put_nowait q x w)) = length (queues w)"
  by (simp_all add: put_nowait_def)

lemma is_set_put_nowait: "is_set e (put_nowait q x w) = is_set e w"
  by (simp add: is_set_def put_nowait_def)

lemma get_None: "get q w = None \<longleftrightarrow> items q w = []"
  by (simp add: get_def split: list.splits)

lemma get_Some:
  "get q w = Some (x, w') \<longleftrightarrow>
     (\<exists>rest. items q w = x # rest \<and> w' = w\<lparr>queues := (queues w)[q := rest]\<rparr>)"
  by (auto simp: get_def split: list.splits)

lemma get_items:
  "get q w = Some (x, w') \<Longrightarrow> items q' w' = (if q' = q then tl (items q w) else items q' w)"
  by (auto simp: get_def items_def split: list.splits if_splits)

lemma get_frame:
  assumes "get q w = Some (x, w')"
  shows "events w' = events w" "tasks w' = tasks w" "sessions w' = sessions w"
    "length (queues w') = length (queues w)"
  using assms by (auto simp: get_def split: list.splits)

lemma is_set_get: "get q w = Some (x, w') \<Longrightarrow> is_set e w' = is_set e w"
  by (simp add: is_set_def get_frame)

lemma is_set_event_set:
  "is_set e (event_set e' w) = (is_set e w \<or> (e = e' \<and> e < length (events w)))"
  by (cases "e = e'") (auto simp: is_set_def event_set_def)

lemma event_set_frame:
  "queues (event_set e w) = queues w" "tasks (event_set e w) = tasks w"
  "sessions (event_set e w) = sessions w"
  "length (events (event_set e w)) = length (events w)"
  by (simp_all add: event_set_def)

lemma items_event_set: "items q (event_set e w) = items q w"
  by (simp add: items_def event_set_def)

lemma squeeze_tobytes: "tobytes (squeeze a) = buffer a"
  by (simp add: tobytes_def squeeze_def)

lemma init_eval:
  "GeminiHandler_init l r f w =
     (\<lparr>expected_layout = l, output_sample_rate = r, output_frame_size = f,
       input_sample_rate = 16000, args_set = length (events w), latest_args = [],
       client = None, input_queue = length (queues w),
       output_queue = Suc (length (queues w)), quit = Suc (length (events w))\<rparr>,
      w\<lparr>queues := queues w @ [[], []], events := events w @ [False, False]\<rparr>)"
  by (simp add: GeminiHandler_init_def Event_def Queue_def)

lemma init_wf: "GeminiHandler_init l r f w = (h, w') \<Longrightarrow> wf_handler h w'"
  by (auto simp: init_eval wf_handler_def)

lemma handler0_eval:
  "handler0 = \<lparr>expected_layout = ''mono'', output_sample_rate = 24000,
     output_frame_size = 480, input_sample_rate = 16000, args_set = 0, latest_args = [],
     client = None, input_queue = 0, output_queue = 1, quit = 1\<rparr>"
  by (simp add: handler0_def GeminiHandler_default_def init_eval world0_def)

lemma store0_eval:
  "store0 = \<lparr>queues = [[], []], events = [False, False], tasks = 0, sessions = []\<rparr>"
  by (simp add: store0_def GeminiHandler_default_def init_eval world0_def)

lemma wf0: "wf_handler handler0 store0"
  by (simp add: handler0_eval store0_eval wf_handler_def)

subsection \<open>\<open>receive\<close>\<close>

text \<open>
  C7. For every input frame \<open>(rate, array)\<close> that \<open>receive\<close> accepts, the adapter
  buffers exactly one message on the input queue: the queue is the old queue followed by
  the base64 text of the bytes of the squeezed array (which are the bytes of the array
  itself). No other queue gains an element, no queue is created, and the events, the
  tasks and the sessions stay as they were. The handler's own attributes are not
  touched: \<open>receive\<close> returns only a store.
\<close>

theorem receive_buffers_one_message:
  assumes "wf_handler h w"
  shows "items (input_queue h) (receive h (rate, array) w)
           = items (input_queue h) w @ [Str (b64encode (tobytes (squeeze array)))]
       \<and> b64encode (tobytes (squeeze array)) = b64encode (buffer array)
       \<and> (\<forall>q. q \<noteq> input_queue h \<longrightarrow> items q (receive h (rate, array) w) = items q w)
       \<and> length (queues (receive h (rate, array) w)) = length (queues w)
       \<and> events (receive h (rate, array) w) = events w
       \<and> tasks (receive h (rate, array) w) = tasks w
       \<and> sessions (receive h (rate, array) w) = sessions w"
  using assms
  by (simp add: receive_def audio_message_def items_put_nowait put_nowait_frame
      wf_handler_def squeeze_tobytes)

theorem receive_buffers_one_message_witness:
  "wf_handler handler0 store0
   \<and> items (input_queue handler0)
        (receive handler0 (16000, \<lparr>shape = [1, 2], buffer = [1, 2, 3, 4]\<rparr>) store0)
      = [Str ''AQIDBA=='']"
  using wf0 receive_buffers_one_message [OF wf0, of 16000 "\<lparr>shape = [1, 2], buffer = [1, 2, 3, 4]\<rparr>"]
  by (simp add: handler0_eval store0_eval items_def receive_def put_nowait_def
      audio_message_def squeeze_tobytes b64_char_def b64_alphabet_def)


text \<open>The definitions that evaluate the examples.\<close>

lemmas eval_simps = handler0_eval store0_eval frame0_def items_def is_set_def
  receive_def put_nowait_def get_def shutdown_def event_set_def audio_message_def
  squeeze_tobytes b64_char_def b64_alphabet_def copy_def init_eval wf_handler_def

subsection \<open>\<open>shutdown\<close>\<close>

text \<open>
  C9. \<open>shutdown\<close> modifies only the quit event, which it sets. The queues and the
  frames buffered on them, every other event, the tasks and the sessions are left as
  they were, so no buffered frame is discarded. The handler's own attributes are not
  touched: \<open>shutdown\<close> returns only a store.
\<close>

theorem shutdown_sets_only_quit:
  "queues (shutdown h w) = queues w
   \<and> (\<forall>q. items q (shutdown h w) = items q w)
   \<and> length (events (shutdown h w)) = length (events w)
   \<and> (\<forall>e. e \<noteq> quit h \<longrightarrow> is_set e (shutdown h w) = is_set e w)
   \<and> (quit h < length (events w) \<longrightarrow> is_set (quit h) (shutdown h w))
   \<and> tasks (shutdown h w) = tasks w
   \<and> sessions (shutdown h w) = sessions w"
  by (simp add: shutdown_def event_set_frame items_event_set is_set_event_set)

theorem shutdown_sets_only_quit_witness:
  "items (input_queue handler0) (shutdown handler0 (receive handler0 frame0 store0))
     = [Str ''AQIDBA=='']
   \<and> is_set (quit handler0) (shutdown handler0 (receive handler0 frame0 store0))
   \<and> \<not> is_set (args_set handler0) (shutdown handler0 (receive handler0 frame0 store0))"
  using shutdown_sets_only_quit [of handler0 "receive handler0 frame0 store0"]
  by (simp add: eval_simps)

subsection \<open>\<open>copy\<close>\<close>

text \<open>
  C8. \<open>copy\<close> returns a new handler with the configuration of the original (layout,
  output rate, output frame size, and the input rate 16000) and fresh state: its two
  queues are empty, its quit and argument events are unset, it has no client. The
  queues and events of the copy are new objects, the objects that existed before are
  unchanged, and the copy shares none with a well-formed original: what \<open>receive\<close>
  and \<open>shutdown\<close> do to the copy is not seen through the original.
\<close>

theorem copy_is_fresh:
  assumes "copy h w = (h', w')"
  shows "expected_layout h' = expected_layout h
       \<and> output_sample_rate h' = output_sample_rate h
       \<and> output_frame_size h' = output_frame_size h
       \<and> input_sample_rate h' = 16000
       \<and> client h' = None
       \<and> items (input_queue h') w' = [] \<and> items (output_queue h') w' = []
       \<and> \<not> is_set (quit h') w' \<and> \<not> is_set (args_set h') w'
       \<and> wf_handler h' w'
       \<and> length (queues w) \<le> input_queue h' \<and> length (queues w) \<le> output_queue h'
       \<and> length (events w) \<le> quit h' \<and> length (events w) \<le> args_set h'
       \<and> (\<forall>q. q < length (queues w) \<longrightarrow> items q w' = items q w)
       \<and> (\<forall>e. e < length (events w) \<longrightarrow> is_set e w' = is_set e w)
       \<and> tasks w' = tasks w \<and> sessions w' = sessions w
       \<and> (wf_handler h w \<longrightarrow>
            {input_queue h', output_queue h'} \<inter> {input_queue h, output_queue h} = {}
          \<and> {quit h', args_set h'} \<inter> {quit h, args_set h} = {}
          \<and> (\<forall>frame q. q \<in> {input_queue h, output_queue h} \<longrightarrow>
                items q (receive h' frame w') = items q w)
          \<and> (\<forall>e. e \<in> {quit h, args_set h} \<longrightarrow>
                is_set e (shutdown h' w') = is_set e w))"
  using assms
  by (auto simp: copy_def init_eval items_def is_set_def wf_handler_def nth_append
      receive_def put_nowait_def shutdown_def event_set_def nth_list_update)

theorem copy_is_fresh_witness:
  "wf_handler handler0 (shutdown handler0 (receive handler0 frame0 store0))
   \<and> items (input_queue (fst (copy handler0 (shutdown handler0 (receive handler0 frame0 store0)))))
        (snd (copy handler0 (shutdown handler0 (receive handler0 frame0 store0)))) = []
   \<and> \<not> is_set (quit (fst (copy handler0 (shutdown handler0 (receive handler0 frame0 store0)))))
        (snd (copy handler0 (shutdown handler0 (receive handler0 frame0 store0))))
   \<and> input_queue (fst (copy handler0 (shutdown handler0 (receive handler0 frame0 store0)))) = 2
   \<and> quit (fst (copy handler0 (shutdown handler0 (receive handler0 frame0 store0)))) = 3"
  using copy_is_fresh [of handler0 "shutdown handler0 (receive handler0 frame0 store0)"
      "fst (copy handler0 (shutdown handler0 (receive handler0 frame0 store0)))"
      "snd (copy handler0 (shutdown handler0 (receive handler0 frame0 store0)))"]
  by (simp add: eval_simps)

subsection \<open>Coroutines, one resumption\<close>



lemma items_fold_put:
  "items q (fold (\<lambda>a. put_nowait oq (Array a)) xs w) =
     (if q = oq \<and> oq < length (queues w) then items q w @ map Array xs else items q w)"
  by (induction xs arbitrary: w) (simp_all add: items_put_nowait put_nowait_frame)

lemma fold_put_frame:
  "events (fold (\<lambda>a. put_nowait oq (Array a)) xs w) = events w"
  "tasks (fold (\<lambda>a. put_nowait oq (Array a)) xs w) = tasks w"
  "sessions (fold (\<lambda>a. put_nowait oq (Array a)) xs w) = sessions w"
  "length (queues (fold (\<lambda>a. put_nowait oq (Array a)) xs w)) = length (queues w)"
  by (induction xs arbitrary: w, simp_all add: put_nowait_frame)+

lemma connect_store:
  "queues (snd (connect h key r w)) = queues w"
  "events (snd (connect h key r w)) = events w"
  "tasks (snd (connect h key r w)) = tasks w"
  by (simp_all add: connect_def split: option.splits)


lemma items_connect: "items q (snd (connect h key r w)) = items q w"
  by (simp add: items_def connect_store)

lemma generator_eq:
  "generator agg h r w =
     (case latest_args h of
        _ # key # _ \<Rightarrow>
          (snd (fst (connect h key r w)),
           fold (\<lambda>a. put_nowait (output_queue h) (Array a))
             (agg (fst (fst (connect h key r w)))) (snd (connect h key r w)))
      | _ \<Rightarrow> (Some IndexError, w))"
  by (simp add: generator_def split: list.splits prod.splits)

lemma generator_store:
  "events (snd (generator agg h r w)) = events w"
  "tasks (snd (generator agg h r w)) = tasks w"
  "length (queues (snd (generator agg h r w))) = length (queues w)"
  by (simp_all add: generator_eq fold_put_frame connect_store split: list.splits)

lemma items_generator:
  "q \<noteq> output_queue h \<Longrightarrow> items q (snd (generator agg h r w)) = items q w"
  by (simp add: generator_eq items_fold_put items_connect split: list.splits)


lemma emit_output_cases:
  "(items (output_queue h) w = [] \<and> emit_output h w = (Suspended AwaitOutput, w)) \<or>
   (\<exists>x rest w'. items (output_queue h) w = x # rest \<and> get (output_queue h) w = Some (x, w')
      \<and> emit_output h w = (Returned (output_sample_rate h, x), w'))"
  by (cases "items (output_queue h) w") (auto simp: emit_output_def get_def)

lemma stream_get_cases:
  "(items (input_queue h) w = [] \<and> stream_get h w = (Blocked, AwaitInput, w)) \<or>
   (\<exists>x rest w'. items (input_queue h) w = x # rest \<and> get (input_queue h) w = Some (x, w')
      \<and> stream_get h w = (Yield x, LoopHead, w'))"
  by (cases "items (input_queue h) w") (auto simp: stream_get_def get_def)

lemma emit_output_store:
  "events (snd (emit_output h w)) = events w"
  "tasks (snd (emit_output h w)) = tasks w"
  "sessions (snd (emit_output h w)) = sessions w"
  "length (queues (snd (emit_output h w))) = length (queues w)"
  "is_set e (snd (emit_output h w)) = is_set e w"
  using emit_output_cases [of h w] by (auto simp: get_frame is_set_get)

lemma items_emit_output:
  "q \<noteq> output_queue h \<Longrightarrow> items q (snd (emit_output h w)) = items q w"
  using emit_output_cases [of h w] by (auto simp: get_items)

lemma is_set_create_task: "is_set e (create_task w) = is_set e w"
  by (simp add: is_set_def create_task_def)

lemma items_create_task: "items q (create_task w) = items q w"
  by (simp add: items_def create_task_def)

lemma create_task_store:
  "events (create_task w) = events w" "queues (create_task w) = queues w"
  "sessions (create_task w) = sessions w" "tasks (create_task w) = Suc (tasks w)"
  by (simp_all add: create_task_def)

lemma emit_args_store:
  "events (snd (emit_args h w)) = events w"
  "sessions (snd (emit_args h w)) = sessions w"
  "length (queues (snd (emit_args h w))) = length (queues w)"
  "is_set e (snd (emit_args h w)) = is_set e w"
  "tasks (snd (emit_args h w)) = (if is_set (args_set h) w then Suc (tasks w) else tasks w)"
  by (simp_all add: emit_args_def emit_output_store create_task_store is_set_create_task)

lemma items_emit_args:
  "q \<noteq> output_queue h \<Longrightarrow> items q (snd (emit_args h w)) = items q w"
  by (simp add: emit_args_def items_emit_output items_create_task)

lemma emit_store:
  "events (snd (emit h w)) = events w"
  "sessions (snd (emit h w)) = sessions w"
  "length (queues (snd (emit h w))) = length (queues w)"
  "is_set e (snd (emit h w)) = is_set e w"
  "tasks (snd (emit h w)) = tasks w"
  by (simp_all add: emit_def emit_args_store emit_output_store)

lemma items_emit:
  "q \<noteq> output_queue h \<Longrightarrow> items q (snd (emit h w)) = items q w"
  by (simp add: emit_def items_emit_args items_emit_output)

lemma emit_resume_store:
  "events (snd (emit_resume h pc w)) = events w"
  "sessions (snd (emit_resume h pc w)) = sessions w"
  "length (queues (snd (emit_resume h pc w))) = length (queues w)"
  "is_set e (snd (emit_resume h pc w)) = is_set e w"
  "tasks (snd (emit_resume h pc w)) =
     (if pc = AwaitArgs \<and> is_set (args_set h) w then Suc (tasks w) else tasks w)"
  by (cases pc; simp add: emit_resume_def emit_args_store emit_output_store)+

lemma items_emit_resume:
  "q \<noteq> output_queue h \<Longrightarrow> items q (snd (emit_resume h pc w)) = items q w"
  by (cases pc) (simp_all add: emit_resume_def items_emit_args items_emit_output)

lemma stream_get_store:
  "events (snd (snd (stream_get h w))) = events w"
  "tasks (snd (snd (stream_get h w))) = tasks w"
  "sessions (snd (snd (stream_get h w))) = sessions w"
  "length (queues (snd (snd (stream_get h w)))) = length (queues w)"
  "is_set e (snd (snd (stream_get h w))) = is_set e w"
  using stream_get_cases [of h w] by (auto simp: get_frame is_set_get)

lemma stream_store:
  "events (snd (snd (stream h pc w))) = events w"
  "tasks (snd (snd (stream h pc w))) = tasks w"
  "sessions (snd (snd (stream h pc w))) = sessions w"
  "length (queues (snd (snd (stream h pc w)))) = length (queues w)"
  "is_set e (snd (snd (stream h pc w))) = is_set e w"
  by (cases pc; simp add: stream_def stream_get_store)+

text \<open>What a resumption of \<open>stream\<close> yields, as a list of at most one item.\<close>

lemma stream_get_fifo:
  "(case fst (stream_get h w) of Yield a \<Rightarrow> [a] | _ \<Rightarrow> [])
     @ items (input_queue h) (snd (snd (stream_get h w))) = items (input_queue h) w"
  using stream_get_cases [of h w] by (auto simp: get_items)

lemma stream_fifo:
  "(case fst (stream h pc w) of Yield a \<Rightarrow> [a] | _ \<Rightarrow> [])
     @ items (input_queue h) (snd (snd (stream h pc w))) = items (input_queue h) w"
  by (cases pc) (simp_all add: stream_def stream_get_fifo)

lemma items_stream_get:
  "q \<noteq> input_queue h \<Longrightarrow> items q (snd (snd (stream_get h w))) = items q w"
  using stream_get_cases [of h w] by (auto simp: get_items)

lemma items_stream:
  "q \<noteq> input_queue h \<Longrightarrow> items q (snd (snd (stream h pc w))) = items q w"
  by (cases pc) (simp_all add: stream_def items_stream_get)

subsection \<open>The event loop, one event\<close>

lemma emit_done_fields:
  "self (emit_done rw s) = self s" "store (emit_done rw s) = snd rw"
  "stream_st (emit_done rw s) = stream_st s" "yielded (emit_done rw s) = yielded s"
  "checks (emit_done rw s) = checks s" "started (emit_done rw s) = started s"
  "finished (emit_done rw s) = finished s"
  "emit_st (emit_done rw s) = (case fst rw of Suspended pc \<Rightarrow> Some pc | Returned _ \<Rightarrow> None)"
  "emitted (emit_done rw s) = emitted s @ (case fst rw of Returned f \<Rightarrow> [f] | _ \<Rightarrow> [])"
  by (cases rw; cases "fst rw"; simp add: emit_done_def)+

lemma stream_done_fields:
  "self (stream_done rw s) = self s" "store (stream_done rw s) = snd (snd rw)"
  "emit_st (stream_done rw s) = emit_st s" "emitted (stream_done rw s) = emitted s"
  "checks (stream_done rw s) = checks s" "started (stream_done rw s) = started s"
  "finished (stream_done rw s) = finished s"
  "stream_st (stream_done rw s) = fst (snd rw)"
  "yielded (stream_done rw s) = yielded s @ (case fst rw of Yield a \<Rightarrow> [a] | _ \<Rightarrow> [])"
  by (cases rw; cases "fst rw"; simp add: stream_done_def)+

lemma exec_self:
  "self (exec agg ev s) = (self s)\<lparr>latest_args := latest_args (self (exec agg ev s))\<rparr>"
  by (cases ev) (simp_all add: emit_done_fields stream_done_fields split: option.splits prod.splits)

lemma exec_refs:
  "input_queue (self (exec agg ev s)) = input_queue (self s)"
  "output_queue (self (exec agg ev s)) = output_queue (self s)"
  "quit (self (exec agg ev s)) = quit (self s)"
  "args_set (self (exec agg ev s)) = args_set (self s)"
  "output_sample_rate (self (exec agg ev s)) = output_sample_rate (self s)"
  by (subst exec_self, simp)+

lemma exec_lengths:
  "length (queues (store (exec agg ev s))) = length (queues (store s))"
  "length (events (store (exec agg ev s))) = length (events (store s))"
  by (cases ev; simp add: emit_done_fields stream_done_fields receive_def shutdown_def
      put_nowait_frame event_set_frame emit_store emit_resume_store stream_store
      generator_store split: option.splits prod.splits;
      metis generator_store snd_conv)+

lemma exec_wf:
  "wf_handler (self s) (store s) \<Longrightarrow> wf_handler (self (exec agg ev s)) (store (exec agg ev s))"
  by (simp add: wf_handler_def exec_refs exec_lengths)

lemma exec_fifo:
  assumes "wf_handler (self s) (store s)"
  shows "yielded (exec agg ev s) @ items (input_queue (self s)) (store (exec agg ev s))
           = yielded s @ items (input_queue (self s)) (store s)
               @ map (\<lambda>frame. Str (audio_message frame)) (received [ev])"
proof (cases ev)
  case (Receive frame)
  with assms show ?thesis
    by (simp add: receive_def items_put_nowait wf_handler_def)
next
  case Shutdown
  then show ?thesis by (simp add: shutdown_def items_event_set)
next
  case (SetArgs args)
  then show ?thesis by (simp add: items_event_set)
next
  case EmitCall
  with assms show ?thesis
    by (simp add: emit_done_fields items_emit wf_handler_def split: option.splits)
next
  case EmitResume
  with assms show ?thesis
    by (simp add: emit_done_fields items_emit_resume wf_handler_def split: option.splits)
next
  case (TaskRun r)
  have "items (input_queue (self s)) (snd (generator agg (self s) r (store s)))
          = items (input_queue (self s)) (store s)"
    using assms by (simp add: items_generator wf_handler_def)
  with TaskRun show ?thesis
    by (auto split: prod.splits)
next
  case StreamNext
  then show ?thesis
    by (simp add: stream_done_fields stream_fifo)
qed

lemma received_append: "received (evs @ evs') = received evs @ received evs'"
  by (induction evs rule: received.induct) simp_all

lemma run_Nil: "run agg [] s = s"
  by (simp add: run_def)

lemma run_Cons: "run agg (ev # evs) s = run agg evs (exec agg ev s)"
  by (simp add: run_def)

lemma run_append: "run agg (evs @ evs') s = run agg evs' (run agg evs s)"
  by (simp add: run_def)

lemma run_refs:
  "input_queue (self (run agg evs s)) = input_queue (self s)"
  "output_queue (self (run agg evs s)) = output_queue (self s)"
  "quit (self (run agg evs s)) = quit (self s)"
  "args_set (self (run agg evs s)) = args_set (self s)"
  "output_sample_rate (self (run agg evs s)) = output_sample_rate (self s)"
  by (induction evs arbitrary: s, simp_all add: run_Nil run_Cons exec_refs)+

lemma run_wf:
  "wf_handler (self s) (store s) \<Longrightarrow> wf_handler (self (run agg evs s)) (store (run agg evs s))"
  by (induction evs arbitrary: s) (simp_all add: run_Nil run_Cons exec_wf)

lemma run_fifo:
  assumes "wf_handler (self s) (store s)"
  shows "yielded (run agg evs s) @ items (input_queue (self s)) (store (run agg evs s))
           = yielded s @ items (input_queue (self s)) (store s)
               @ map (\<lambda>frame. Str (audio_message frame)) (received evs)"
  using assms
proof (induction evs arbitrary: s)
  case Nil
  then show ?case by (simp add: run_Nil)
next
  case (Cons ev evs)
  have "received (ev # evs) = received [ev] @ received evs"
    using received_append [of "[ev]" evs] by simp
  moreover have "yielded (run agg evs (exec agg ev s))
      @ items (input_queue (self s)) (store (run agg evs (exec agg ev s)))
    = yielded (exec agg ev s) @ items (input_queue (self s)) (store (exec agg ev s))
      @ map (\<lambda>frame. Str (audio_message frame)) (received evs)"
    using Cons.IH [of "exec agg ev s"] Cons.prems by (simp add: exec_wf exec_refs)
  ultimately show ?case
    using exec_fifo [OF Cons.prems, of agg ev] by (simp add: run_Cons)
qed

text \<open>Frames handed to \<open>receive\<close> one after the other, with nothing in between.\<close>

lemma run_receives:
  assumes "wf_handler (self s) (store s)"
  shows "items (input_queue (self s)) (store (run agg (map Receive frames) s))
           = items (input_queue (self s)) (store s)
               @ map (\<lambda>frame. Str (audio_message frame)) frames
       \<and> yielded (run agg (map Receive frames) s) = yielded s"
proof -
  have y: "yielded (run agg (map Receive frames) s') = yielded s'" for s'
    by (induction frames arbitrary: s') (simp_all add: run_Nil run_Cons)
  have r: "received (map Receive frames) = frames"
    by (induction frames) simp_all
  show ?thesis
    using run_fifo [OF assms, of agg "map Receive frames"] by (simp add: y r)
qed

text \<open>With the flag unset, each resumption of \<open>stream\<close> forwards the oldest frame.\<close>

lemma stream_forwards:
  assumes "\<not> is_set (quit h) w" "pc \<noteq> Exhausted" "items (input_queue h) w = x # rest"
  shows "fst (stream h pc w) = Yield x" "fst (snd (stream h pc w)) = LoopHead"
    "items (input_queue h) (snd (snd (stream h pc w))) = rest"
    "is_set (quit h) (snd (snd (stream h pc w))) = is_set (quit h) w"
  using assms stream_get_cases [of h w]
  by (cases pc; auto simp: stream_def get_items is_set_get)+

lemma run_drain:
  assumes "\<not> is_set (quit (self s)) (store s)" "stream_st s \<noteq> Exhausted"
    "n \<le> length (items (input_queue (self s)) (store s))"
  shows "yielded (run agg (replicate n StreamNext) s)
           = yielded s @ take n (items (input_queue (self s)) (store s))
       \<and> items (input_queue (self s)) (store (run agg (replicate n StreamNext) s))
           = drop n (items (input_queue (self s)) (store s))"
  using assms
proof (induction n arbitrary: s)
  case 0
  then show ?case by (simp add: run_Nil)
next
  case (Suc n)
  then obtain x rest where q: "items (input_queue (self s)) (store s) = x # rest"
    by (cases "items (input_queue (self s)) (store s)") auto
  let ?s = "exec agg StreamNext s"
  note f = stream_forwards [OF Suc.prems(1) Suc.prems(2) q]
  have a: "yielded ?s = yielded s @ [x]" "stream_st ?s = LoopHead" "self ?s = self s"
    "items (input_queue (self s)) (store ?s) = rest"
    "\<not> is_set (quit (self s)) (store ?s)"
    using f Suc.prems(1) by (simp_all add: stream_done_fields)
  have "n \<le> length (items (input_queue (self ?s)) (store ?s))"
    using Suc.prems(3) q a by simp
  from Suc.IH [of ?s, OF _ _ this] a q show ?case
    by (simp add: run_Cons)
qed

subsection \<open>The quit flag and the loop of \<open>stream\<close>\<close>

lemma exec_is_set_mono:
  "is_set e (store s) \<Longrightarrow> is_set e (store (exec agg ev s))"
proof (cases ev)
  case (TaskRun r)
  assume "is_set e (store s)"
  moreover have "is_set e (snd (generator agg (self s) r (store s))) = is_set e (store s)"
    by (simp add: is_set_def generator_store)
  ultimately show ?thesis using TaskRun by (auto split: prod.splits)
qed (simp_all add: receive_def shutdown_def is_set_put_nowait is_set_event_set
      emit_done_fields stream_done_fields emit_store emit_resume_store stream_store
      split: option.splits)

lemma run_is_set_mono:
  "is_set e (store s) \<Longrightarrow> is_set e (store (run agg evs s))"
  by (induction evs arbitrary: s) (simp_all add: run_Nil run_Cons exec_is_set_mono)

lemma exec_stream_untouched:
  "ev \<noteq> StreamNext \<Longrightarrow>
     stream_st (exec agg ev s) = stream_st s \<and> yielded (exec agg ev s) = yielded s
     \<and> checks (exec agg ev s) = checks s"
  by (cases ev) (auto simp: emit_done_fields split: option.splits prod.splits)

lemma stream_next_cases:
  "exec agg StreamNext s =
     (case stream_st s of
        Exhausted \<Rightarrow> s
      | LoopHead \<Rightarrow>
          if is_set (quit (self s)) (store s)
          then s\<lparr>stream_st := Exhausted, checks := checks s @ [True]\<rparr>
          else (case items (input_queue (self s)) (store s) of
                  [] \<Rightarrow> s\<lparr>stream_st := AwaitInput, checks := checks s @ [False]\<rparr>
                | x # rest \<Rightarrow>
                    s\<lparr>store := snd (the (get (input_queue (self s)) (store s))),
                      stream_st := LoopHead, yielded := yielded s @ [x],
                      checks := checks s @ [False]\<rparr>)
      | AwaitInput \<Rightarrow>
          (case items (input_queue (self s)) (store s) of
             [] \<Rightarrow> s
           | x # rest \<Rightarrow>
               s\<lparr>store := snd (the (get (input_queue (self s)) (store s))),
                 stream_st := LoopHead, yielded := yielded s @ [x]\<rparr>))"
  using stream_get_cases [of "self s" "store s"]
  by (cases "stream_st s") (auto simp: stream_def stream_done_def)

lemma exec_quit_set:
  assumes "is_set (quit (self s)) (store s)"
  shows "length (yielded (exec agg ev s)) + (if stream_st (exec agg ev s) = AwaitInput then 1 else 0)
           \<le> length (yielded s) + (if stream_st s = AwaitInput then 1 else 0)"
    and "stream_st s \<noteq> AwaitInput \<Longrightarrow>
           stream_st (exec agg ev s) \<noteq> AwaitInput \<and> yielded (exec agg ev s) = yielded s"
proof -
  show "length (yielded (exec agg ev s)) + (if stream_st (exec agg ev s) = AwaitInput then 1 else 0)
           \<le> length (yielded s) + (if stream_st s = AwaitInput then 1 else 0)"
  proof (cases "ev = StreamNext")
    case True
    with assms show ?thesis
      by (cases "stream_st s"; cases "items (input_queue (self s)) (store s)")
        (simp_all add: stream_next_cases del: exec.simps)
  next
    case False
    then show ?thesis using exec_stream_untouched [of ev agg s] by simp
  qed
  show "stream_st (exec agg ev s) \<noteq> AwaitInput \<and> yielded (exec agg ev s) = yielded s"
    if "stream_st s \<noteq> AwaitInput"
  proof (cases "ev = StreamNext")
    case True
    with assms that show ?thesis
      by (cases "stream_st s") (simp_all add: stream_next_cases del: exec.simps)
  next
    case False
    then show ?thesis using exec_stream_untouched [of ev agg s] that by simp
  qed
qed

lemma run_quit_set:
  assumes "is_set (quit (self s)) (store s)"
  shows "length (yielded (run agg evs s)) \<le> length (yielded s) + (if stream_st s = AwaitInput then 1 else 0)"
    and "stream_st s \<noteq> AwaitInput \<Longrightarrow> yielded (run agg evs s) = yielded s"
proof -
  have a: "length (yielded (run agg evs s)) + (if stream_st (run agg evs s) = AwaitInput then 1 else 0)
           \<le> length (yielded s) + (if stream_st s = AwaitInput then 1 else 0)"
    using assms
  proof (induction evs arbitrary: s)
    case Nil
    then show ?case by (simp add: run_Nil)
  next
    case (Cons ev evs)
    have "is_set (quit (self (exec agg ev s))) (store (exec agg ev s))"
      using Cons.prems by (simp add: exec_refs exec_is_set_mono)
    from Cons.IH [OF this] exec_quit_set(1) [OF Cons.prems, of agg ev] show ?case
      unfolding run_Cons by (rule order_trans)
  qed
  then show "length (yielded (run agg evs s))
      \<le> length (yielded s) + (if stream_st s = AwaitInput then 1 else 0)"
    by (simp split: if_splits)
  show "yielded (run agg evs s) = yielded s" if "stream_st s \<noteq> AwaitInput"
    using assms that
  proof (induction evs arbitrary: s)
    case Nil
    then show ?case by (simp add: run_Nil)
  next
    case (Cons ev evs)
    have "is_set (quit (self (exec agg ev s))) (store (exec agg ev s))"
      using Cons.prems by (simp add: exec_refs exec_is_set_mono)
    moreover note exec_quit_set(2) [OF Cons.prems(1) Cons.prems(2), of agg ev]
    ultimately show ?case using Cons.IH [of "exec agg ev s"] by (simp add: run_Cons)
  qed
qed

lemma count_list_append: "count_list (xs @ ys) x = count_list xs x + count_list ys x"
  by (induction xs) simp_all

lemma exec_checks:
  assumes "count_list (checks s) False
             = length (yielded s) + (if stream_st s = AwaitInput then 1 else 0)"
    and "count_list (checks s) True = (if stream_st s = Exhausted then 1 else 0)"
    and "True \<notin> set (butlast (checks s))"
  shows "count_list (checks (exec agg ev s)) False
           = length (yielded (exec agg ev s))
               + (if stream_st (exec agg ev s) = AwaitInput then 1 else 0)
       \<and> count_list (checks (exec agg ev s)) True
           = (if stream_st (exec agg ev s) = Exhausted then 1 else 0)
       \<and> True \<notin> set (butlast (checks (exec agg ev s)))"
proof (cases "ev = StreamNext")
  case False
  then show ?thesis using exec_stream_untouched [of ev agg s] assms by simp
next
  case True
  have "True \<notin> set (checks s)" if "stream_st s = LoopHead"
    using assms(2) that by (simp add: count_list_0_iff)
  with True assms show ?thesis
    by (cases "stream_st s"; cases "items (input_queue (self s)) (store s)")
      (simp_all add: stream_next_cases count_list_append del: exec.simps)
qed

lemma run_checks:
  "count_list (checks (run agg evs (boot hw))) False
           = length (yielded (run agg evs (boot hw)))
               + (if stream_st (run agg evs (boot hw)) = AwaitInput then 1 else 0)
       \<and> count_list (checks (run agg evs (boot hw))) True
           = (if stream_st (run agg evs (boot hw)) = Exhausted then 1 else 0)
       \<and> True \<notin> set (butlast (checks (run agg evs (boot hw))))"
proof (induction evs rule: rev_induct)
  case Nil
  then show ?case by (cases hw) (simp add: run_Nil boot_def)
next
  case (snoc ev evs)
  then show ?case
    using exec_checks [of "run agg evs (boot hw)" agg ev] by (simp add: run_append run_Cons run_Nil)
qed

subsection \<open>Examples evaluated\<close>


lemmas loop_simps = run_def boot_def stream_def stream_get_def stream_done_def
  emit_def emit_args_def emit_output_def emit_resume_def emit_done_def create_task_def
  generator_def connect_def sample_aggregate_def truthy_def frame1_def

lemma boot0_wf: "wf_handler (self (boot (handler0, store0))) (store (boot (handler0, store0)))"
  using wf0 by (simp add: boot_def)

text \<open>
  C2. Frames submitted through \<open>receive\<close> are placed on the input queue once each and
  in submission order: after the frames the queue is the old queue followed by their
  encoded messages. Under every interleaving of the events, what \<open>stream\<close> has yielded
  followed by what is still queued is exactly what was there before followed by the
  messages of the frames received, in order (first in, first out, nothing lost or
  duplicated). While the quit flag is unset, resuming \<open>stream\<close> once per queued frame
  forwards all of them, in order.
\<close>

theorem frames_forwarded_in_order:
  assumes "wf_handler (self s) (store s)"
  shows "items (input_queue (self s)) (store (run agg (map Receive frames) s))
           = items (input_queue (self s)) (store s)
               @ map (\<lambda>frame. Str (audio_message frame)) frames
       \<and> yielded (run agg evs s) @ items (input_queue (self s)) (store (run agg evs s))
           = yielded s @ items (input_queue (self s)) (store s)
               @ map (\<lambda>frame. Str (audio_message frame)) (received evs)
       \<and> (\<not> is_set (quit (self s)) (store s) \<and> stream_st s \<noteq> Exhausted \<longrightarrow>
            yielded (run agg
                (replicate (length (items (input_queue (self s)) (store s))) StreamNext) s)
              = yielded s @ items (input_queue (self s)) (store s))"
  using run_receives [OF assms, of agg frames] run_fifo [OF assms, of agg evs]
    run_drain [of s "length (items (input_queue (self s)) (store s))" agg]
  by simp

theorem frames_forwarded_in_order_witness:
  "wf_handler (self (boot (handler0, store0))) (store (boot (handler0, store0)))
   \<and> items (input_queue handler0)
        (store (run sample_aggregate (map Receive [frame0, frame1]) (boot (handler0, store0))))
      = [Str ''AQIDBA=='', Str ''BQYHCA=='']
   \<and> yielded (run sample_aggregate [Receive frame0, StreamNext, Receive frame1, Receive frame0]
        (boot (handler0, store0))) = [Str ''AQIDBA=='']
   \<and> items (input_queue handler0)
        (store (run sample_aggregate [Receive frame0, StreamNext, Receive frame1, Receive frame0]
          (boot (handler0, store0)))) = [Str ''BQYHCA=='', Str ''AQIDBA=='']"
  using boot0_wf
    frames_forwarded_in_order [OF boot0_wf, of sample_aggregate "[frame0, frame1]"
      "[Receive frame0, StreamNext, Receive frame1, Receive frame0]"]
  by (simp add: eval_simps loop_simps)

lemma run_exhausted:
  "stream_st s = Exhausted \<Longrightarrow>
     stream_st (run agg evs s) = Exhausted \<and> yielded (run agg evs s) = yielded s"
proof (induction evs arbitrary: s)
  case Nil
  then show ?case by (simp add: run_Nil)
next
  case (Cons ev evs)
  have "stream_st (exec agg ev s) = Exhausted \<and> yielded (exec agg ev s) = yielded s"
  proof (cases "ev = StreamNext")
    case True
    with Cons.prems show ?thesis by (simp add: stream_next_cases del: exec.simps)
  next
    case False
    with Cons.prems show ?thesis using exec_stream_untouched [of ev agg s] by simp
  qed
  with Cons.IH [of "exec agg ev s"] show ?case by (simp add: run_Cons)
qed

lemma exec_shutdown_eq:
  "exec agg Shutdown s
     = s\<lparr>store := (store s)\<lparr>events := (events (store s))[quit (self s) := True]\<rparr>\<rparr>"
  by (simp add: shutdown_def event_set_def)

lemma inflight_not_preempted:
  assumes "stream_st s = AwaitInput" "items (input_queue (self s)) (store s) = x # rest"
  shows "yielded (exec agg StreamNext (exec agg Shutdown s)) = yielded s @ [x]"
proof -
  let ?s = "exec agg Shutdown s"
  have "stream_st ?s = AwaitInput" "items (input_queue (self ?s)) (store ?s) = x # rest"
    "yielded ?s = yielded s"
    using assms by (simp_all add: shutdown_def items_event_set)
  then show ?thesis
    by (simp add: stream_next_cases del: exec.simps)
qed

text \<open>
  C5. Cancellation is cooperative. In every run from a fresh handler, the head of the loop
  of \<open>stream\<close> has read the flag as unset exactly once for every frame yielded (and once
  more while a dequeue is in flight), it has read the flag as set at most once, as its
  last check, and then the stream is exhausted and never yields again. A dequeue in
  flight is not preempted: if \<open>shutdown\<close> comes while \<open>stream\<close> waits for a frame, the
  next frame queued is still yielded. \<open>shutdown\<close> changes nothing but the flag, so
  it does not touch the position of \<open>stream\<close>, the tasks or the sessions.
\<close>

theorem stream_checks_flag_once_per_frame:
  assumes "s = run agg evs (boot hw)"
  shows "count_list (checks s) False
           = length (yielded s) + (if stream_st s = AwaitInput then 1 else 0)
       \<and> count_list (checks s) True = (if stream_st s = Exhausted then 1 else 0)
       \<and> True \<notin> set (butlast (checks s))
       \<and> (stream_st s = Exhausted \<longrightarrow> yielded (run agg evs' s) = yielded s)
       \<and> (stream_st s = AwaitInput \<and> items (input_queue (self s)) (store s) = x # rest \<longrightarrow>
            yielded (exec agg StreamNext (exec agg Shutdown s)) = yielded s @ [x])
       \<and> exec agg Shutdown s
           = s\<lparr>store := (store s)\<lparr>events := (events (store s))[quit (self s) := True]\<rparr>\<rparr>"
  using run_checks [of agg evs hw] run_exhausted [of s agg evs']
    inflight_not_preempted [of s x rest agg] exec_shutdown_eq [of agg s]
  unfolding assms by blast

theorem stream_checks_flag_once_per_frame_witness:
  "checks (run sample_aggregate [StreamNext, Shutdown, Receive frame0, StreamNext, StreamNext]
      (boot (handler0, store0))) = [False, True]
   \<and> yielded (run sample_aggregate [StreamNext, Shutdown, Receive frame0, StreamNext, StreamNext]
      (boot (handler0, store0))) = [Str ''AQIDBA=='']
   \<and> stream_st (run sample_aggregate [StreamNext, Shutdown, Receive frame0, StreamNext, StreamNext]
      (boot (handler0, store0))) = Exhausted
   \<and> stream_st (run sample_aggregate [StreamNext] (boot (handler0, store0))) = AwaitInput
   \<and> yielded (run sample_aggregate [StreamNext, Receive frame0, Shutdown, StreamNext]
      (boot (handler0, store0))) = [Str ''AQIDBA=='']"
  using stream_checks_flag_once_per_frame [OF refl, of sample_aggregate
      "[StreamNext, Shutdown, Receive frame0, StreamNext, StreamNext]" "(handler0, store0)"
      "[Receive frame0, StreamNext]" "Str ''AQIDBA==''" "[]"]
    stream_checks_flag_once_per_frame [OF refl, of sample_aggregate
      "[StreamNext, Receive frame0]" "(handler0, store0)" "[]" "Str ''AQIDBA==''" "[]"]
  by (simp add: eval_simps loop_simps)

text \<open>
  C1, as stated, fails: on a default handler, after \<open>shutdown\<close> has set the quit event,
  \<open>receive\<close> still puts the frame on the (empty) input queue.
\<close>

theorem receive_after_shutdown_counterexample:
  "is_set (quit handler0) (shutdown handler0 store0)
   \<and> items (input_queue handler0) (shutdown handler0 store0) = []
   \<and> items (input_queue handler0) (receive handler0 frame0 (shutdown handler0 store0))
       = [Str ''AQIDBA=='']"
  by (simp add: eval_simps)

text \<open>
  C1, amended. \<open>receive\<close> does not consult the quit event: with the event set it still
  appends the frame's message to the input queue. What the set event stops is
  \<open>stream\<close>: the event stays set, and unless a dequeue was already in flight when it was
  set, no further frame is yielded to the session, whatever happens next; with a dequeue
  in flight, at most one more.
\<close>

theorem shutdown_stops_stream_not_receive:
  assumes "wf_handler (self s) (store s)" and "is_set (quit (self s)) (store s)"
  shows "items (input_queue (self s)) (receive (self s) frame (store s))
           = items (input_queue (self s)) (store s) @ [Str (audio_message frame)]
       \<and> is_set (quit (self s)) (store (run agg evs s))
       \<and> (stream_st s \<noteq> AwaitInput \<longrightarrow> yielded (run agg evs s) = yielded s)
       \<and> length (yielded (run agg evs s))
           \<le> length (yielded s) + (if stream_st s = AwaitInput then 1 else 0)"
  using assms run_quit_set [OF assms(2), of agg evs] run_is_set_mono [OF assms(2), of agg evs]
  by (simp add: receive_def items_put_nowait wf_handler_def)

theorem shutdown_stops_stream_not_receive_witness:
  "wf_handler (self (exec sample_aggregate Shutdown (boot (handler0, store0))))
      (store (exec sample_aggregate Shutdown (boot (handler0, store0))))
   \<and> is_set (quit handler0) (store (exec sample_aggregate Shutdown (boot (handler0, store0))))
   \<and> items (input_queue handler0)
        (store (run sample_aggregate [Receive frame0, StreamNext, Receive frame1, StreamNext]
           (exec sample_aggregate Shutdown (boot (handler0, store0)))))
       = [Str ''AQIDBA=='', Str ''BQYHCA=='']
   \<and> yielded (run sample_aggregate [Receive frame0, StreamNext, Receive frame1, StreamNext]
        (exec sample_aggregate Shutdown (boot (handler0, store0)))) = []"
proof -
  let ?s = "exec sample_aggregate Shutdown (boot (handler0, store0))"
  have wf: "wf_handler (self ?s) (store ?s)"
    by (simp add: eval_simps loop_simps)
  have q: "is_set (quit (self ?s)) (store ?s)"
    by (simp add: eval_simps loop_simps)
  show ?thesis
    using wf q shutdown_stops_stream_not_receive [OF wf q, of frame0 sample_aggregate
        "[Receive frame0, StreamNext, Receive frame1, StreamNext]"]
    by (simp add: eval_simps loop_simps)
qed

subsection \<open>\<open>connect\<close> and \<open>generator\<close>\<close>

lemma relay_filter: "relay rs = map the (filter truthy (map data rs))"
  by (induction rs) simp_all

lemma relay_nonempty: "[] \<notin> set (relay rs)"
  by (induction rs) (auto simp: truthy_def split: option.splits)

lemma connect_chunks:
  "fst (fst (connect h key r w))
     = (if client_error r = None \<and> connect_error r = None then relay (responses r) else [])"
  by (simp add: connect_def split: option.splits)







text \<open>
  C10. No chunk yielded by \<open>connect\<close> is empty: the chunks are the \<open>data\<close> of the
  responses whose \<open>data\<close> is neither absent nor empty, in order. Only the arrays that the
  aggregator makes of these chunks reach the output queue.
\<close>

theorem connect_yields_nonempty_chunks:
  "[] \<notin> set (fst (fst (connect h key r w)))
   \<and> fst (fst (connect h key r w))
       = (if client_error r = None \<and> connect_error r = None
          then map the (filter truthy (map data (responses r))) else [])
   \<and> (truthy d \<longleftrightarrow> d \<noteq> None \<and> d \<noteq> Some [])
   \<and> (latest_args h = a # key # others \<and> output_queue h < length (queues w) \<longrightarrow>
        items (output_queue h) (snd (generator agg h r w))
          = items (output_queue h) w @ map Array (agg (fst (fst (connect h key r w)))))"
  by (auto simp: connect_chunks relay_nonempty relay_filter truthy_def generator_eq
      items_fold_put items_connect connect_store split: option.splits)

theorem connect_yields_nonempty_chunks_witness:
  "fst (fst (connect handler0 ''key'' remote0 store0)) = [[1, 2, 3, 4], [5, 6]]
   \<and> items (output_queue handler0)
       (snd (generator sample_aggregate (handler0\<lparr>latest_args := [''audio'', ''key'']\<rparr>) remote0 store0))
       = [Array \<lparr>shape = [1, 2], buffer = [1, 2, 3, 4]\<rparr>, Array \<lparr>shape = [1, 1], buffer = [5, 6]\<rparr>]"
  using connect_yields_nonempty_chunks [of handler0 "''key''" remote0 store0 None "''audio''" "[]"
      sample_aggregate]
    connect_yields_nonempty_chunks [of "handler0\<lparr>latest_args := [''audio'', ''key'']\<rparr>" "''key''"
      remote0 store0 None "''audio''" "[]" sample_aggregate]
  by (simp add: eval_simps loop_simps remote0_def)

subsection \<open>Generator tasks\<close>


lemma emit_output_not_args: "fst (emit_output h w) \<noteq> Suspended AwaitArgs"
  using emit_output_cases [of h w] by auto

lemma emit_eq:
  "emit h w = (if is_set (args_set h) w then emit_output h w else (Suspended AwaitArgs, w))"
  by (simp add: emit_def emit_args_def)

lemma emit_resume_args:
  "emit_resume h AwaitArgs w =
     (if is_set (args_set h) w then emit_output h (create_task w) else (Suspended AwaitArgs, w))"
  by (simp add: emit_resume_def emit_args_def)

lemma exec_emit_call:
  "emit_st s = None \<Longrightarrow>
   exec agg EmitCall s =
     (if is_set (args_set (self s)) (store s)
      then emit_done (emit_output (self s) (store s)) s
      else s\<lparr>emit_st := Some AwaitArgs\<rparr>)"
  by (simp add: emit_eq emit_done_def)

lemma exec_emit_resume:
  "emit_st s = Some pc \<Longrightarrow>
   exec agg EmitResume s =
     (case pc of
        AwaitOutput \<Rightarrow> emit_done (emit_output (self s) (store s)) s
      | AwaitArgs \<Rightarrow>
          if is_set (args_set (self s)) (store s)
          then emit_done (emit_output (self s) (create_task (store s))) s
          else s)"
  by (cases pc) (simp_all add: emit_resume_def emit_args_def emit_done_def)












subsection \<open>What \<open>emit\<close> returns\<close>

lemma emit_output_head:
  "items (output_queue h) w = x # rest \<Longrightarrow>
   fst (emit_output h w) = Returned (output_sample_rate h, x)"
  using emit_output_cases [of h w] by auto

lemma emitted_emit_output:
  "emitted (emit_done (emit_output h w) s) = emitted s \<or>
   (\<exists>x rest. items (output_queue h) w = x # rest \<and>
      emitted (emit_done (emit_output h w) s) = emitted s @ [(output_sample_rate h, x)])"
  using emit_output_cases [of h w] by (auto simp: emit_done_fields)

lemma exec_emitted:
  "emitted (exec agg ev s) = emitted s \<or>
   (\<exists>x rest. items (output_queue (self s)) (store s) = x # rest \<and>
      emitted (exec agg ev s) = emitted s @ [(output_sample_rate (self s), x)])"
proof (cases ev)
  case EmitCall
  show ?thesis
  proof (cases "emit_st s")
    case None
    with EmitCall emitted_emit_output [of "self s" "store s" s] show ?thesis
      by (simp add: exec_emit_call del: exec.simps)
  next
    case (Some pc)
    with EmitCall show ?thesis by simp
  qed
next
  case EmitResume
  show ?thesis
  proof (cases "emit_st s")
    case None
    with EmitResume show ?thesis by simp
  next
    case (Some pc)
    with EmitResume emitted_emit_output [of "self s" "store s" s]
      emitted_emit_output [of "self s" "create_task (store s)" s] show ?thesis
      by (cases pc) (simp_all add: exec_emit_resume items_create_task del: exec.simps)
  qed
next
  case (TaskRun r)
  then show ?thesis by (simp split: prod.splits)
next
  case StreamNext
  then show ?thesis by (simp add: stream_done_fields)
qed simp_all

lemma run_emitted_tags:
  "list_all (\<lambda>frame. fst frame = output_sample_rate (self s)) (emitted s) \<Longrightarrow>
   list_all (\<lambda>frame. fst frame = output_sample_rate (self s)) (emitted (run agg evs s))"
proof (induction evs arbitrary: s)
  case Nil
  then show ?case by (simp add: run_Nil)
next
  case (Cons ev evs)
  have r: "output_sample_rate (self (exec agg ev s)) = output_sample_rate (self s)"
    by (simp add: exec_refs)
  have "list_all (\<lambda>frame. fst frame = output_sample_rate (self s)) (emitted (exec agg ev s))"
    using Cons.prems exec_emitted [of agg ev s] by auto
  then have "list_all (\<lambda>frame. fst frame = output_sample_rate (self (exec agg ev s)))
      (emitted (run agg evs (exec agg ev s)))"
    using Cons.IH [of "exec agg ev s"] by (simp only: r)
  then show ?case by (simp only: r run_Cons)
qed

text \<open>
  C4, as stated, fails on the frame size: \<open>emit\<close> returns the array it takes from the
  output queue as it is. With the default configuration (480 samples per frame), a
  response of four bytes comes back from \<open>emit\<close> as a frame of two samples.
\<close>

theorem emit_frame_size_counterexample:
  "emitted (run sample_aggregate
      [EmitCall, SetArgs [''audio'', ''key''], EmitResume, TaskRun remote0, EmitResume]
      (boot (handler0, store0)))
     = [(24000, Array \<lparr>shape = [1, 2], buffer = [1, 2, 3, 4]\<rparr>)]
   \<and> size_of \<lparr>shape = [1, 2], buffer = [1, 2, 3, 4]\<rparr> = 2
   \<and> output_frame_size handler0 = 480"
  by (simp add: eval_simps loop_simps remote0_def size_of_def)

text \<open>
  C4, amended. Every frame returned by \<open>emit\<close> carries the configured output sample
  rate (24000 by default), whatever the schedule; the input rate is 16000 for every
  configuration. The array of the frame is the head of the output queue, unchanged: each
  step of the loop either returns nothing or returns the array that was first on the
  queue, and the queue holds the arrays the aggregator made of the chunks of
  \<open>connect\<close>. \<open>output_frame_size\<close> (480 by default) is stored by the
  constructor and is not consulted by \<open>emit\<close>.
\<close>

theorem emit_returns_queue_head_at_output_rate:
  "list_all (\<lambda>frame. fst frame = output_sample_rate h) (emitted (run agg evs (boot (h, w))))
   \<and> (emitted (exec agg ev s) = emitted s \<or>
        (\<exists>array rest. items (output_queue (self s)) (store s) = array # rest \<and>
           emitted (exec agg ev s) = emitted s @ [(output_sample_rate (self s), array)]))
   \<and> (items (output_queue h) w = x # xs \<longrightarrow>
        fst (emit_output h w) = Returned (output_sample_rate h, x))
   \<and> (latest_args h = a # key # others \<and> output_queue h < length (queues w) \<longrightarrow>
        items (output_queue h) (snd (generator agg h r w))
          = items (output_queue h) w @ map Array (agg (fst (fst (connect h key r w)))))
   \<and> output_sample_rate (fst (GeminiHandler_init layout rate frame_size w)) = rate
   \<and> output_frame_size (fst (GeminiHandler_init layout rate frame_size w)) = frame_size
   \<and> input_sample_rate (fst (GeminiHandler_init layout rate frame_size w)) = 16000
   \<and> output_sample_rate (fst (GeminiHandler_default w)) = 24000
   \<and> output_frame_size (fst (GeminiHandler_default w)) = 480
   \<and> input_sample_rate (fst (GeminiHandler_default w)) = 16000"
proof -
  have "list_all (\<lambda>frame. fst frame = output_sample_rate h) (emitted (run agg evs (boot (h, w))))"
    using run_emitted_tags [of "boot (h, w)" agg evs] by (simp add: boot_def)
  moreover have "latest_args h = a # key # others \<and> output_queue h < length (queues w) \<longrightarrow>
      items (output_queue h) (snd (generator agg h r w))
        = items (output_queue h) w @ map Array (agg (fst (fst (connect h key r w))))"
    by (simp add: generator_eq items_fold_put items_connect connect_store)
  ultimately show ?thesis
    using exec_emitted [of agg ev s] emit_output_head [of h w x xs]
    by (simp add: GeminiHandler_default_def init_eval)
qed

theorem emit_returns_queue_head_at_output_rate_witness:
  "emitted (run sample_aggregate
      [EmitCall, SetArgs [''audio'', ''key''], EmitResume, TaskRun remote0, EmitResume]
      (boot (handler0, store0)))
     = [(24000, Array \<lparr>shape = [1, 2], buffer = [1, 2, 3, 4]\<rparr>)]
   \<and> fst (emit_output handler0
        (put_nowait (output_queue handler0) (Array \<lparr>shape = [3], buffer = [1, 2, 3, 4, 5, 6]\<rparr>) store0))
     = Returned (24000, Array \<lparr>shape = [3], buffer = [1, 2, 3, 4, 5, 6]\<rparr>)
   \<and> items (output_queue handler0)
       (snd (generator sample_aggregate (handler0\<lparr>latest_args := [''audio'', ''key'']\<rparr>) remote0 store0))
       = [Array \<lparr>shape = [1, 2], buffer = [1, 2, 3, 4]\<rparr>, Array \<lparr>shape = [1, 1], buffer = [5, 6]\<rparr>]"
  using emit_returns_queue_head_at_output_rate [of handler0 sample_aggregate
      "[EmitCall, SetArgs [''audio'', ''key''], EmitResume, TaskRun remote0, EmitResume]"
      "put_nowait (output_queue handler0) (Array \<lparr>shape = [3], buffer = [1, 2, 3, 4, 5, 6]\<rparr>) store0"
      EmitCall "boot (handler0, store0)"
      "Array \<lparr>shape = [3], buffer = [1, 2, 3, 4, 5, 6]\<rparr>" "[]" "''audio''" "''key''" "[]" remote0
      "''mono''" 24000 480]
    emit_returns_queue_head_at_output_rate [of "handler0\<lparr>latest_args := [''audio'', ''key'']\<rparr>"
      sample_aggregate
      "[EmitCall, SetArgs [''audio'', ''key''], EmitResume, TaskRun remote0, EmitResume]"
      store0 EmitCall "boot (handler0, store0)"
      "Array \<lparr>shape = [3], buffer = [1, 2, 3, 4, 5, 6]\<rparr>" "[]" "''audio''" "''key''" "[]" remote0
      "''mono''" 24000 480]
  by (simp add: eval_simps loop_simps remote0_def)

subsection \<open>Sessions\<close>




end
